theory Spec2Isabelle
  imports Main "HOL-Library.Sublist"
begin

section \<open>The script \<open>update_xcode_project.py\<close>\<close>

text \<open>
  The script has one procedure, \<open>generate_file_references\<close>: it builds a dictionary
  literal, prints two header lines, probes the filesystem once for each dictionary
  entry and prints one line for it, and prints a fixed block of instructions.

  Python strings are modelled as \<open>string\<close> holding the UTF-8 bytes of the source
  text, so the two non-ASCII markers of the source are three bytes each. Standard
  output is the list of the arguments of the \<open>print\<close> calls made so far, oldest first;
  each call writes its argument followed by a newline. Writing to standard output is
  taken to succeed in \<open>print\<close> and in the procedure built on it; the last subsection
  of the model runs the same statements on an output stream that can fail.
\<close>

subsection \<open>The filesystem as \<open>os.stat\<close> sees it\<close>

text \<open>
  \<open>os.stat\<close> follows symbolic links and either fails with an \<open>OSError\<close> or reports
  the kind of the object found. A filesystem is the function from a path to that
  result.
\<close>

datatype file_kind = S_IFREG | S_IFDIR | S_IFCHR | S_IFBLK | S_IFIFO | S_IFSOCK

datatype os_error = ENOENT | ENOTDIR | EACCES | ELOOP | ENAMETOOLONG

type_synonym filesystem = "string \<Rightarrow> os_error + file_kind"

subsection \<open>The state of a run\<close>

text \<open>
  The frame holds the local variable \<open>swift_files\<close> (a dictionary, kept as the list
  of its items in insertion order), the standard output, and the log of the paths
  handed to \<open>os.stat\<close>, oldest first.
\<close>

record frame =
  swift_files_local :: "(string \<times> string) list"
  stdout :: "string list"
  stat_calls :: "string list"

definition print :: "string \<Rightarrow> frame \<Rightarrow> frame" where
  "print s st = st\<lparr>stdout := stdout st @ [s]\<rparr>"

text \<open>
  \<open>os.path.exists(path)\<close> calls \<open>os.stat(path)\<close> and answers \<open>False\<close> when that raises
  \<open>OSError\<close>, \<open>True\<close> otherwise, whatever the kind of the object.
\<close>

definition os_path_exists :: "filesystem \<Rightarrow> string \<Rightarrow> frame \<Rightarrow> bool \<times> frame" where
  "os_path_exists fs p st =
     (case fs p of
        Inl e \<Rightarrow> (False, st\<lparr>stat_calls := stat_calls st @ [p]\<rparr>)
      | Inr k \<Rightarrow> (True, st\<lparr>stat_calls := stat_calls st @ [p]\<rparr>))"

text \<open>The text written to standard output: every printed string, then a newline.\<close>

definition stdout_text :: "string list \<Rightarrow> string" where
  "stdout_text ls = concat (map (\<lambda>l. l @ [CHR 0x0A]) ls)"

subsection \<open>The dictionary literal\<close>

definition swift_files :: "(string \<times> string) list" where
  "swift_files =
    [(''Models/Phase.swift'', ''Phase.swift''),
     (''Models/Schedule.swift'', ''Schedule.swift''),
     (''Models/SessionRecord.swift'', ''SessionRecord.swift''),
     (''Models/PendingTransition.swift'', ''PendingTransition.swift''),
     (''Models/DailyStats.swift'', ''DailyStats.swift''),
     (''Services/TimerEngine.swift'', ''TimerEngine.swift''),
     (''Services/SessionManager.swift'', ''SessionManager.swift''),
     (''Services/TransitionManager.swift'', ''TransitionManager.swift''),
     (''Services/NotificationService.swift'', ''NotificationService.swift''),
     (''ViewModels/PhaseCoordinator.swift'', ''PhaseCoordinator.swift''),
     (''Views/MenuBarView.swift'', ''MenuBarView.swift''),
     (''Views/SettingsView.swift'', ''SettingsView.swift''),
     (''Views/Components/HeaderView.swift'', ''HeaderView.swift''),
     (''Views/Components/ActiveSessionView.swift'', ''ActiveSessionView.swift''),
     (''Views/Components/StatsView.swift'', ''StatsView.swift''),
     (''Views/Components/ControlsView.swift'', ''ControlsView.swift''),
     (''Views/Components/FooterView.swift'', ''FooterView.swift''),
     (''Utilities/TimeFormatter.swift'', ''TimeFormatter.swift'')]"

subsection \<open>The markers\<close>

text \<open>U+2705 and U+274C in UTF-8.\<close>

definition check_mark :: string where
  "check_mark = [CHR 0xE2, CHR 0x9C, CHR 0x85]"

definition cross_mark :: string where
  "cross_mark = [CHR 0xE2, CHR 0x9D, CHR 0x8C]"

subsection \<open>The loop\<close>

text \<open>One iteration of \<open>for path, name in swift_files.items()\<close>.\<close>

definition loop_body :: "filesystem \<Rightarrow> string \<Rightarrow> string \<Rightarrow> frame \<Rightarrow> frame" where
  "loop_body fs path name st =
     (let full_path = ''MoveIt/'' @ path;
          (found, st1) =
             os_path_exists fs (''/Users/vladislav_k/Code/Personal/MoveIt/'' @ full_path) st
      in if found then print (check_mark @ '' '' @ full_path) st1
         else print (cross_mark @ '' '' @ full_path @ '' - NOT FOUND'') st1)"

fun for_loop :: "filesystem \<Rightarrow> (string \<times> string) list \<Rightarrow> frame \<Rightarrow> frame" where
  "for_loop fs [] st = st"
| "for_loop fs ((path, name) # items) st = for_loop fs items (loop_body fs path name st)"

subsection \<open>The procedure and the script\<close>

definition generate_file_references :: "filesystem \<Rightarrow> frame" where
  "generate_file_references fs =
     (let st = \<lparr>swift_files_local = swift_files, stdout = [], stat_calls = []\<rparr>;
          st = print ''New Swift files to add to Xcode project:'' st;
          st = print (replicate 50 (CHR ''='')) st;
          st = for_loop fs (swift_files_local st) st;
          st = print ([CHR 0x0A] @ replicate 50 (CHR ''='')) st;
          st = print ([CHR 0x0A] @ ''To add these files to Xcode:'') st;
          st = print ''1. Open MoveIt.xcodeproj in Xcode'' st;
          st = print ''2. Right-click on the MoveIt folder in the project navigator'' st;
          st = print (''3. Select 'Add Files to MoveIt...'' @ [CHR 0x27]) st;
          st = print
            ''4. Navigate to each folder (Models, Services, etc.) and add all .swift files'' st;
          st = print ''5. Make sure 'Copy items if needed' is UNCHECKED'' st;
          st = print ''6. Make sure 'Add to targets: MoveIt' is CHECKED'' st;
          st = print
            ([CHR 0x0A] @ ''Alternatively, drag and drop the folders into Xcode project navigator'')
            st
      in st)"

text \<open>
  How a run of the interpreter ends: the script runs to its end, or \<open>sys.exit(n)\<close> is
  called, or an exception reaches the top level. The exit status of the process is
  0, \<open>n\<close> and 1 respectively.
\<close>

datatype outcome = Completed frame | SystemExit int | Uncaught

fun exit_status :: "outcome \<Rightarrow> int" where
  "exit_status (Completed st) = 0"
| "exit_status (SystemExit n) = n"
| "exit_status Uncaught = 1"

text \<open>
  The script body under \<open>if __name__ == "__main__"\<close>: it calls the procedure and
  reads neither the arguments nor the environment.
\<close>

definition run_script :: "string list \<Rightarrow> (string \<rightharpoonup> string) \<Rightarrow> filesystem \<Rightarrow> outcome" where
  "run_script argv environ fs = Completed (generate_file_references fs)"


subsection \<open>The vocabulary of the properties\<close>

definition base_directory :: string where
  "base_directory = ''/Users/vladislav_k/Code/Personal/MoveIt''"

definition project_subdirectory :: string where
  "project_subdirectory = ''MoveIt''"

text \<open>The three parts joined with \<open>/\<close>.\<close>

definition joined_location :: "string \<Rightarrow> string" where
  "joined_location path = base_directory @ ''/'' @ project_subdirectory @ ''/'' @ path"

text \<open>A path exists when \<open>os.stat\<close> succeeds on it.\<close>

definition path_exists :: "filesystem \<Rightarrow> string \<Rightarrow> bool" where
  "path_exists fs p = (case fs p of Inl e \<Rightarrow> False | Inr k \<Rightarrow> True)"

definition holds_file_or_directory :: "filesystem \<Rightarrow> string \<Rightarrow> bool" where
  "holds_file_or_directory fs p = (fs p = Inr S_IFREG \<or> fs p = Inr S_IFDIR)"

text \<open>The success line and the failure line of a relative path.\<close>

definition success_line :: "string \<Rightarrow> string" where
  "success_line path = check_mark @ '' '' @ project_subdirectory @ ''/'' @ path"

definition failure_line :: "string \<Rightarrow> string" where
  "failure_line path =
     cross_mark @ '' '' @ project_subdirectory @ ''/'' @ path @ '' - NOT FOUND''"

definition entry_line :: "filesystem \<Rightarrow> string \<times> string \<Rightarrow> string" where
  "entry_line fs entry =
     (if path_exists fs (joined_location (fst entry)) then success_line (fst entry)
      else failure_line (fst entry))"

text \<open>The lines printed before the loop and the block printed after it.\<close>

definition header_lines :: "string list" where
  "header_lines = [''New Swift files to add to Xcode project:'', replicate 50 (CHR ''='')]"

definition instruction_lines :: "string list" where
  "instruction_lines =
    [CHR 0x0A # replicate 50 (CHR ''=''),
     CHR 0x0A # ''To add these files to Xcode:'',
     ''1. Open MoveIt.xcodeproj in Xcode'',
     ''2. Right-click on the MoveIt folder in the project navigator'',
     ''3. Select 'Add Files to MoveIt...'' @ [CHR 0x27],
     ''4. Navigate to each folder (Models, Services, etc.) and add all .swift files'',
     ''5. Make sure 'Copy items if needed' is UNCHECKED'',
     ''6. Make sure 'Add to targets: MoveIt' is CHECKED'',
     CHR 0x0A # ''Alternatively, drag and drop the folders into Xcode project navigator'']"

text \<open>The lines the loop prints: the loop of the procedure, run on an empty output.\<close>

definition file_check_lines :: "filesystem \<Rightarrow> string list" where
  "file_check_lines fs =
     (let st = \<lparr>swift_files_local = swift_files, stdout = [], stat_calls = []\<rparr>
      in stdout (for_loop fs (swift_files_local st) st))"

text \<open>
  Three filesystems: nothing exists; a FIFO sits where the first entry is looked for
  and nothing else exists; the first entry is a regular file and nothing else exists.
\<close>

definition absent_fs :: filesystem where
  "absent_fs p = Inl ENOENT"

definition fifo_fs :: filesystem where
  "fifo_fs p =
     (if p = ''/Users/vladislav_k/Code/Personal/MoveIt/MoveIt/Models/Phase.swift''
      then Inr S_IFIFO else Inl ENOENT)"

definition one_file_fs :: filesystem where
  "one_file_fs p =
     (if p = ''/Users/vladislav_k/Code/Personal/MoveIt/MoveIt/Models/Phase.swift''
      then Inr S_IFREG else Inl ENOENT)"

subsection \<open>The script on an output stream that can fail\<close>

text \<open>
  \<open>print\<close> hands its argument to the text layer of \<open>sys.stdout\<close>, which raises
  \<open>UnicodeEncodeError\<close> when the encoding of the stream cannot represent the string;
  the script catches nothing, so the exception reaches the top level. When the
  interpreter shuts down it flushes the stream, and a failed flush makes the exit
  status 120 whatever it was. Both are properties of the stream that the interpreter
  sets up, from the environment and the file descriptor, before the script runs:
  which strings it encodes, and whether its final flush succeeds. The script itself
  reads neither the arguments nor the environment.
\<close>

record text_stream =
  encodes :: "string \<Rightarrow> bool"
  flushes :: bool

definition print_io :: "text_stream \<Rightarrow> string \<Rightarrow> frame \<Rightarrow> outcome" where
  "print_io out s st = (if encodes out s then Completed (print s st) else Uncaught)"

text \<open>Sequencing: a statement runs only if the run so far has not ended.\<close>

definition and_then :: "outcome \<Rightarrow> (frame \<Rightarrow> outcome) \<Rightarrow> outcome" where
  "and_then r f =
     (case r of Completed st \<Rightarrow> f st | SystemExit n \<Rightarrow> SystemExit n | Uncaught \<Rightarrow> Uncaught)"

definition loop_body_io ::
  "text_stream \<Rightarrow> filesystem \<Rightarrow> string \<Rightarrow> string \<Rightarrow> frame \<Rightarrow> outcome" where
  "loop_body_io out fs path name st =
     (let full_path = ''MoveIt/'' @ path;
          (found, st1) =
             os_path_exists fs (''/Users/vladislav_k/Code/Personal/MoveIt/'' @ full_path) st
      in if found then print_io out (check_mark @ '' '' @ full_path) st1
         else print_io out (cross_mark @ '' '' @ full_path @ '' - NOT FOUND'') st1)"

fun for_loop_io ::
  "text_stream \<Rightarrow> filesystem \<Rightarrow> (string \<times> string) list \<Rightarrow> frame \<Rightarrow> outcome" where
  "for_loop_io out fs [] st = Completed st"
| "for_loop_io out fs ((path, name) # items) st =
     and_then (loop_body_io out fs path name st) (for_loop_io out fs items)"

text \<open>The statements of the procedure, in the order of the source.\<close>

definition generate_file_references_io :: "text_stream \<Rightarrow> filesystem \<Rightarrow> outcome" where
  "generate_file_references_io out fs =
     foldl and_then
       (Completed \<lparr>swift_files_local = swift_files, stdout = [], stat_calls = []\<rparr>)
       [print_io out ''New Swift files to add to Xcode project:'',
        print_io out (replicate 50 (CHR ''='')),
        (\<lambda>st. for_loop_io out fs (swift_files_local st) st),
        print_io out ([CHR 0x0A] @ replicate 50 (CHR ''='')),
        print_io out ([CHR 0x0A] @ ''To add these files to Xcode:''),
        print_io out ''1. Open MoveIt.xcodeproj in Xcode'',
        print_io out ''2. Right-click on the MoveIt folder in the project navigator'',
        print_io out (''3. Select 'Add Files to MoveIt...'' @ [CHR 0x27]),
        print_io out
          ''4. Navigate to each folder (Models, Services, etc.) and add all .swift files'',
        print_io out ''5. Make sure 'Copy items if needed' is UNCHECKED'',
        print_io out ''6. Make sure 'Add to targets: MoveIt' is CHECKED'',
        print_io out
          ([CHR 0x0A] @
           ''Alternatively, drag and drop the folders into Xcode project navigator'')]"

definition run_script_io ::
  "string list \<Rightarrow> (string \<rightharpoonup> string) \<Rightarrow> text_stream \<Rightarrow> filesystem \<Rightarrow> outcome" where
  "run_script_io argv environ out fs = generate_file_references_io out fs"

text \<open>The exit status of the process: that of the outcome, or 120 after a failed flush.\<close>

definition process_exit_status :: "text_stream \<Rightarrow> outcome \<Rightarrow> int" where
  "process_exit_status out r = (if flushes out then exit_status r else 120)"

text \<open>
  Three streams: one that encodes every string and flushes; one that encodes only
  strings of bytes below 128 and flushes; one that encodes every string and whose
  final flush fails.
\<close>

definition utf8_stream :: text_stream where
  "utf8_stream = \<lparr>encodes = (\<lambda>s. True), flushes = True\<rparr>"

definition ascii_stream :: text_stream where
  "ascii_stream = \<lparr>encodes = (\<lambda>s. list_all (\<lambda>c. of_char c < (128::nat)) s), flushes = True\<rparr>"

definition full_device_stream :: text_stream where
  "full_device_stream = \<lparr>encodes = (\<lambda>s. True), flushes = False\<rparr>"

section \<open>Properties\<close>

subsection \<open>The primitives and the loop\<close>

lemma print_fields:
  "stdout (print s st) = stdout st @ [s]"
  "stat_calls (print s st) = stat_calls st"
  "swift_files_local (print s st) = swift_files_local st"
  by (simp_all add: print_def)

lemma os_path_exists_fields:
  "fst (os_path_exists fs p st) = path_exists fs p"
  "stdout (snd (os_path_exists fs p st)) = stdout st"
  "stat_calls (snd (os_path_exists fs p st)) = stat_calls st @ [p]"
  "swift_files_local (snd (os_path_exists fs p st)) = swift_files_local st"
  by (simp_all add: os_path_exists_def path_exists_def split: sum.splits)

lemma joined_location_literal:
  "''/Users/vladislav_k/Code/Personal/MoveIt/'' @ ''MoveIt/'' @ path = joined_location path"
  by (simp add: joined_location_def base_directory_def project_subdirectory_def)

lemma loop_body_fields:
  "stdout (loop_body fs path name st) = stdout st @ [entry_line fs (path, name)]"
  "stat_calls (loop_body fs path name st) = stat_calls st @ [joined_location path]"
  "swift_files_local (loop_body fs path name st) = swift_files_local st"
proof -
  obtain found st1
    where call: "os_path_exists fs (joined_location path) st = (found, st1)"
    by (cases "os_path_exists fs (joined_location path) st")
  from call have found: "found = path_exists fs (joined_location path)"
    using os_path_exists_fields(1) [of fs "joined_location path" st] by simp
  from call have st1:
    "stdout st1 = stdout st"
    "stat_calls st1 = stat_calls st @ [joined_location path]"
    "swift_files_local st1 = swift_files_local st"
    using os_path_exists_fields(2-4) [of fs "joined_location path" st] by simp_all
  have body: "loop_body fs path name st =
      (if found then print (check_mark @ '' '' @ ''MoveIt/'' @ path) st1
       else print (cross_mark @ '' '' @ ''MoveIt/'' @ path @ '' - NOT FOUND'') st1)"
    unfolding loop_body_def Let_def joined_location_literal call by simp
  show "stdout (loop_body fs path name st) = stdout st @ [entry_line fs (path, name)]"
    by (simp add: body found st1 print_fields entry_line_def success_line_def
        failure_line_def project_subdirectory_def)
  show "stat_calls (loop_body fs path name st) = stat_calls st @ [joined_location path]"
    by (simp add: body st1 print_fields)
  show "swift_files_local (loop_body fs path name st) = swift_files_local st"
    by (simp add: body st1 print_fields)
qed

lemma for_loop_stdout:
  "stdout (for_loop fs items st) = stdout st @ map (entry_line fs) items"
  by (induction fs items st rule: for_loop.induct) (simp_all add: loop_body_fields)

lemma for_loop_stat_calls:
  "stat_calls (for_loop fs items st) = stat_calls st @ map (joined_location \<circ> fst) items"
  by (induction fs items st rule: for_loop.induct) (simp_all add: loop_body_fields)

lemma for_loop_local:
  "swift_files_local (for_loop fs items st) = swift_files_local st"
  by (induction fs items st rule: for_loop.induct) (simp_all add: loop_body_fields)

lemma file_check_lines_map: "file_check_lines fs = map (entry_line fs) swift_files"
  by (simp add: file_check_lines_def for_loop_stdout)

lemma report_stdout:
  "stdout (generate_file_references fs) =
     header_lines @ file_check_lines fs @ instruction_lines"
  by (simp add: generate_file_references_def Let_def print_fields for_loop_stdout
      file_check_lines_map header_lines_def instruction_lines_def)

lemma report_stat_calls:
  "stat_calls (generate_file_references fs) = map (joined_location \<circ> fst) swift_files"
  by (simp add: generate_file_references_def Let_def print_fields for_loop_stat_calls)

lemma report_local:
  "swift_files_local (generate_file_references fs) = swift_files"
  by (simp add: generate_file_references_def Let_def print_fields for_loop_local)

lemma length_swift_files: "length swift_files = 18"
  by (simp add: swift_files_def)

lemma distinct_keys: "distinct (map fst swift_files)"
  by (simp add: swift_files_def)


subsection \<open>Telling the lines apart\<close>

lemma entry_line_eq_success:
  "entry_line fs e = success_line p \<longleftrightarrow> fst e = p \<and> path_exists fs (joined_location p)"
  by (auto simp add: entry_line_def success_line_def failure_line_def check_mark_def
      cross_mark_def)

lemma entry_line_eq_failure:
  "entry_line fs e = failure_line p \<longleftrightarrow> fst e = p \<and> \<not> path_exists fs (joined_location p)"
  by (auto simp add: entry_line_def success_line_def failure_line_def check_mark_def
      cross_mark_def)

lemma marker_in_entry_line: "CHR 0xE2 \<in> set (entry_line fs e)"
  by (simp add: entry_line_def success_line_def failure_line_def check_mark_def
      cross_mark_def)

lemma marker_not_in_fixed_lines:
  "l \<in> set header_lines \<union> set instruction_lines \<Longrightarrow> CHR 0xE2 \<notin> set l"
  by (auto simp add: header_lines_def instruction_lines_def)

lemma entry_line_not_fixed:
  "entry_line fs e \<notin> set header_lines \<union> set instruction_lines"
  using marker_in_entry_line marker_not_in_fixed_lines by blast

lemma count_entry_lines_absent:
  "p \<notin> fst ` set items \<Longrightarrow> count_list (map (entry_line fs) items) (entry_line fs (p, n)) = 0"
proof -
  assume out: "p \<notin> fst ` set items"
  have "entry_line fs (p, n) \<notin> set (map (entry_line fs) items)"
  proof
    assume "entry_line fs (p, n) \<in> set (map (entry_line fs) items)"
    then obtain e where e: "e \<in> set items" "entry_line fs e = entry_line fs (p, n)"
      by auto
    from e(2) have "fst e = p"
      by (cases "path_exists fs (joined_location p)")
        (simp_all add: entry_line_eq_success entry_line_eq_failure entry_line_def [of fs "(p, n)"])
    with e(1) out show False by auto
  qed
  then show ?thesis by simp
qed

lemma count_entry_lines_present:
  "distinct (map fst items) \<Longrightarrow> (p, n) \<in> set items \<Longrightarrow>
   count_list (map (entry_line fs) items) (entry_line fs (p, n)) = 1"
proof (induction items)
  case Nil
  then show ?case by simp
next
  case (Cons e items)
  show ?case
  proof (cases "fst e = p")
    case True
    with Cons.prems(1) have "p \<notin> fst ` set items" by auto
    then have "count_list (map (entry_line fs) items) (entry_line fs (p, n)) = 0"
      by (rule count_entry_lines_absent)
    moreover from True have "entry_line fs e = entry_line fs (p, n)"
      by (simp add: entry_line_def)
    ultimately show ?thesis by simp
  next
    case False
    with Cons.prems(2) have "(p, n) \<in> set items" by auto
    moreover from Cons.prems(1) have "distinct (map fst items)" by simp
    ultimately have "count_list (map (entry_line fs) items) (entry_line fs (p, n)) = 1"
      by (rule Cons.IH [rotated])
    moreover from False have "entry_line fs e \<noteq> entry_line fs (p, n)"
      by (cases "path_exists fs (joined_location p)")
        (simp_all add: entry_line_eq_success entry_line_eq_failure entry_line_def [of fs "(p, n)"])
    ultimately show ?thesis by simp
  qed
qed

lemma count_other_line:
  "(p, n) \<in> set items \<Longrightarrow> l \<in> {success_line p, failure_line p} \<Longrightarrow>
   l \<noteq> entry_line fs (p, n) \<Longrightarrow> count_list (map (entry_line fs) items) l = 0"
proof -
  assume l: "l \<in> {success_line p, failure_line p}" "l \<noteq> entry_line fs (p, n)"
  have "l \<notin> set (map (entry_line fs) items)"
  proof
    assume "l \<in> set (map (entry_line fs) items)"
    then obtain e where e: "entry_line fs e = l" by auto
    with l show False
      by (auto simp add: entry_line_eq_success entry_line_eq_failure
          entry_line_def [of fs "(p, n)"] split: if_splits)
  qed
  then show ?thesis by simp
qed

lemma marked_lines_not_fixed:
  "success_line p \<notin> set header_lines \<union> set instruction_lines"
  "failure_line p \<notin> set header_lines \<union> set instruction_lines"
proof -
  have "CHR 0xE2 \<in> set (success_line p)" "CHR 0xE2 \<in> set (failure_line p)"
    by (simp_all add: success_line_def failure_line_def check_mark_def cross_mark_def)
  then show "success_line p \<notin> set header_lines \<union> set instruction_lines"
    and "failure_line p \<notin> set header_lines \<union> set instruction_lines"
    using marker_not_in_fixed_lines by blast+
qed

lemma count_in_report:
  "l \<notin> set header_lines \<union> set instruction_lines \<Longrightarrow>
   count_list (stdout (generate_file_references fs)) l =
   count_list (map (entry_line fs) swift_files) l"
  by (simp add: report_stdout file_check_lines_map)


lemma count_list_distinct:
  "distinct xs \<Longrightarrow> x \<in> set xs \<Longrightarrow> count_list xs x = 1"
  by (induction xs) auto

lemma separator_literal:
  "replicate 50 (CHR ''='') = ''==================================================''"
  by (simp add: numeral_eq_Suc)

lemma fixed_lines_distinct: "distinct (header_lines @ instruction_lines)"
  unfolding header_lines_def instruction_lines_def separator_literal by simp

lemma entry_line_in_report:
  "e \<in> set swift_files \<Longrightarrow> entry_line fs e \<in> set (stdout (generate_file_references fs))"
  by (simp add: report_stdout file_check_lines_map)

lemma no_underscore_in_keys: "list_all (\<lambda>e. CHR ''_'' \<notin> set (fst e)) swift_files"
  by (simp add: swift_files_def)

lemma no_underscore_in_entry_line:
  "CHR ''_'' \<notin> set (fst e) \<Longrightarrow> CHR ''_'' \<notin> set (entry_line fs e)"
  by (simp add: entry_line_def success_line_def failure_line_def check_mark_def
      cross_mark_def project_subdirectory_def)

subsection \<open>The run on a stream that can fail\<close>

lemma and_then_simps:
  "and_then (Completed st) f = f st"
  "and_then (SystemExit n) f = SystemExit n"
  "and_then Uncaught f = Uncaught"
  by (simp_all add: and_then_def)

lemma loop_body_io_eq:
  "loop_body_io out fs path name st =
     (if encodes out (entry_line fs (path, name)) then Completed (loop_body fs path name st)
      else Uncaught)"
proof -
  obtain found st1
    where call: "os_path_exists fs (joined_location path) st = (found, st1)"
    by (cases "os_path_exists fs (joined_location path) st")
  from call have found: "found = path_exists fs (joined_location path)"
    using os_path_exists_fields(1) [of fs "joined_location path" st] by simp
  have io: "loop_body_io out fs path name st =
      (if found then print_io out (check_mark @ '' '' @ ''MoveIt/'' @ path) st1
       else print_io out (cross_mark @ '' '' @ ''MoveIt/'' @ path @ '' - NOT FOUND'') st1)"
    unfolding loop_body_io_def Let_def joined_location_literal call by simp
  have pure: "loop_body fs path name st =
      (if found then print (check_mark @ '' '' @ ''MoveIt/'' @ path) st1
       else print (cross_mark @ '' '' @ ''MoveIt/'' @ path @ '' - NOT FOUND'') st1)"
    unfolding loop_body_def Let_def joined_location_literal call by simp
  show ?thesis
    by (simp add: io pure found print_io_def entry_line_def success_line_def
        failure_line_def project_subdirectory_def)
qed

lemma for_loop_io_eq:
  "for_loop_io out fs items st =
     (if list_all (encodes out) (map (entry_line fs) items) then Completed (for_loop fs items st)
      else Uncaught)"
  by (induction fs items st rule: for_loop.induct)
    (simp_all add: loop_body_io_eq and_then_simps)

lemma generate_file_references_io_eq:
  "generate_file_references_io out fs =
     (if list_all (encodes out) (stdout (generate_file_references fs))
      then Completed (generate_file_references fs) else Uncaught)"
  by (simp add: generate_file_references_io_def generate_file_references_def Let_def
      print_io_def for_loop_io_eq and_then_simps print_fields for_loop_stdout)

lemma report_not_ascii:
  "\<not> list_all (encodes ascii_stream) (stdout (generate_file_references fs))"
proof -
  have "(''Models/Phase.swift'', ''Phase.swift'') \<in> set swift_files"
    by (simp add: swift_files_def)
  then have "entry_line fs (''Models/Phase.swift'', ''Phase.swift'')
      \<in> set (stdout (generate_file_references fs))"
    by (rule entry_line_in_report)
  moreover have "\<not> encodes ascii_stream (entry_line fs e)" for e
  proof -
    have "\<not> of_char (CHR 0xE2) < (128::nat)"
      by simp
    with marker_in_entry_line [of fs e]
    have "\<exists>c \<in> set (entry_line fs e). \<not> of_char c < (128::nat)"
      by blast
    then show ?thesis
      by (simp add: ascii_stream_def list_all_iff)
  qed
  ultimately show ?thesis
    by (auto simp add: list_all_iff)
qed

subsection \<open>The claims\<close>

text \<open>
  C1. For every entry of the mapping: when the constructed path exists, the report
  holds the success line of that path, once, and no failure line of it; when it does
  not exist, the report holds the failure line of that path (which ends in
  \<open>NOT FOUND\<close>), once, and no success line of it.
\<close>

theorem report_line_per_entry:
  "(path, name) \<in> set swift_files \<Longrightarrow>
   (path_exists fs (joined_location path) \<longrightarrow>
      count_list (stdout (generate_file_references fs)) (success_line path) = 1 \<and>
      count_list (stdout (generate_file_references fs)) (failure_line path) = 0) \<and>
   (\<not> path_exists fs (joined_location path) \<longrightarrow>
      count_list (stdout (generate_file_references fs)) (failure_line path) = 1 \<and>
      count_list (stdout (generate_file_references fs)) (success_line path) = 0 \<and>
      suffix '' - NOT FOUND'' (failure_line path))"
proof -
  assume entry: "(path, name) \<in> set swift_files"
  let ?out = "stdout (generate_file_references fs)"
  have own: "count_list ?out (entry_line fs (path, name)) = 1"
    using count_entry_lines_present [OF distinct_keys entry, of fs]
      entry_line_not_fixed [of fs "(path, name)"]
    by (simp add: count_in_report)
  have other: "count_list ?out l = 0"
    if "l \<in> {success_line path, failure_line path}" "l \<noteq> entry_line fs (path, name)" for l
  proof -
    from that(1) have "l \<notin> set header_lines \<union> set instruction_lines"
      using marked_lines_not_fixed [of path] by auto
    then have "count_list ?out l = count_list (map (entry_line fs) swift_files) l"
      by (rule count_in_report)
    with count_other_line [OF entry that] show ?thesis by simp
  qed
  have differ: "success_line path \<noteq> failure_line path"
    by (simp add: success_line_def failure_line_def check_mark_def cross_mark_def)
  have ending: "suffix '' - NOT FOUND'' (failure_line path)"
    by (simp add: failure_line_def suffix_def)
  show ?thesis
  proof (cases "path_exists fs (joined_location path)")
    case True
    then have "entry_line fs (path, name) = success_line path"
      by (simp add: entry_line_def)
    with own other [of "failure_line path"] differ True show ?thesis by simp
  next
    case False
    then have "entry_line fs (path, name) = failure_line path"
      by (simp add: entry_line_def)
    with own other [of "success_line path"] differ False ending show ?thesis by simp
  qed
qed


theorem report_line_per_entry_witness:
  "count_list (stdout (generate_file_references one_file_fs))
     (success_line ''Models/Phase.swift'') = 1 \<and>
   count_list (stdout (generate_file_references one_file_fs))
     (failure_line ''Models/Phase.swift'') = 0 \<and>
   count_list (stdout (generate_file_references one_file_fs))
     (failure_line ''Models/Schedule.swift'') = 1 \<and>
   count_list (stdout (generate_file_references one_file_fs))
     (success_line ''Models/Schedule.swift'') = 0"
proof -
  have first: "(''Models/Phase.swift'', ''Phase.swift'') \<in> set swift_files"
    and second: "(''Models/Schedule.swift'', ''Schedule.swift'') \<in> set swift_files"
    by (simp_all add: swift_files_def)
  have there: "path_exists one_file_fs (joined_location ''Models/Phase.swift'')"
    and missing: "\<not> path_exists one_file_fs (joined_location ''Models/Schedule.swift'')"
    by (simp_all add: path_exists_def one_file_fs_def joined_location_def
        base_directory_def project_subdirectory_def)
  show ?thesis
    using report_line_per_entry [OF first, of one_file_fs]
      report_line_per_entry [OF second, of one_file_fs] there missing
    by simp
qed

text \<open>
  C2. Whatever the filesystem answers, the report is the two header lines, the lines
  of the file-check loop and the instruction block, and the loop prints as many lines
  as the mapping has entries, which is 18.
\<close>

theorem file_check_line_count:
  "stdout (generate_file_references fs) =
     header_lines @ file_check_lines fs @ instruction_lines \<and>
   length (file_check_lines fs) = length swift_files \<and>
   length swift_files = 18"
  by (simp add: report_stdout file_check_lines_map length_swift_files)

text \<open>
  C3. The instruction block is the same nine printed strings for every filesystem; it
  comes after the header and all file-check lines, nothing follows it, and each of its
  strings is printed exactly once in the whole report. The text written is the text of
  the earlier lines followed by the text of the block.
\<close>

theorem instructions_once_after_checks:
  "stdout (generate_file_references fs) =
     (header_lines @ file_check_lines fs) @ instruction_lines \<and>
   list_all (\<lambda>l. count_list (stdout (generate_file_references fs)) l = 1)
     instruction_lines \<and>
   stdout_text (stdout (generate_file_references fs)) =
     stdout_text (header_lines @ file_check_lines fs) @ stdout_text instruction_lines"
proof -
  have once: "count_list (stdout (generate_file_references fs)) l = 1"
    if l: "l \<in> set instruction_lines" for l
  proof -
    from l have "CHR 0xE2 \<notin> set l"
      using marker_not_in_fixed_lines by blast
    then have "l \<notin> set (file_check_lines fs)"
      using marker_in_entry_line by (auto simp add: file_check_lines_map)
    moreover from l have "l \<notin> set header_lines"
      using fixed_lines_distinct by auto
    moreover from l have "count_list instruction_lines l = 1"
      using fixed_lines_distinct by (simp add: count_list_distinct)
    ultimately show ?thesis
      by (simp add: report_stdout)
  qed
  then have "list_all (\<lambda>l. count_list (stdout (generate_file_references fs)) l = 1)
      instruction_lines"
    by (simp add: list_all_iff)
  then show ?thesis
    by (simp add: report_stdout stdout_text_def)
qed

text \<open>
  C5. The paths handed to the existence test are, in the order of the mapping, the
  base directory, the project subdirectory and the relative path of each entry,
  joined with \<open>/\<close>; nothing else is probed.
\<close>

theorem probed_locations:
  "stat_calls (generate_file_references fs) =
     map (\<lambda>(path, name). base_directory @ ''/'' @ project_subdirectory @ ''/'' @ path)
       swift_files \<and>
   base_directory = ''/Users/vladislav_k/Code/Personal/MoveIt'' \<and>
   project_subdirectory = ''MoveIt''"
proof -
  have parts: "joined_location \<circ> fst =
      (\<lambda>(path, name). base_directory @ ''/'' @ project_subdirectory @ ''/'' @ path)"
    by (auto simp add: joined_location_def)
  have "stat_calls (generate_file_references fs) =
      map (\<lambda>(path, name). base_directory @ ''/'' @ project_subdirectory @ ''/'' @ path)
        swift_files"
    by (simp only: report_stat_calls parts)
  then show ?thesis
    by (simp only: base_directory_def project_subdirectory_def simp_thms)
qed

text \<open>
  C7. The script never asks for an exit status: for all arguments, every environment,
  every output stream and every filesystem its run does not end in \<open>sys.exit\<close>. On
  every normal completion, that is when the run reaches the end of the script and
  the final flush succeeds, the exit status is 0. The run reaches the end, with the
  frame of the procedure, exactly when the stream encodes every line of the report,
  whatever the existence results are, and otherwise ends in the uncaught encoding
  error. The exit status is 1 after the encoding error and 120 after a failed flush,
  and no other value.
\<close>

theorem exit_status_on_completion:
  "run_script_io argv environ out fs \<noteq> SystemExit n \<and>
   (run_script_io argv environ out fs = Completed st \<and> flushes out \<longrightarrow>
      process_exit_status out (run_script_io argv environ out fs) = 0) \<and>
   (run_script_io argv environ out fs = Completed st \<longleftrightarrow>
      st = generate_file_references fs \<and>
      list_all (encodes out) (stdout (generate_file_references fs))) \<and>
   (run_script_io argv environ out fs = Uncaught \<longleftrightarrow>
      \<not> list_all (encodes out) (stdout (generate_file_references fs))) \<and>
   process_exit_status out (run_script_io argv environ out fs) =
     (if \<not> flushes out then 120
      else if list_all (encodes out) (stdout (generate_file_references fs)) then 0 else 1)"
  by (auto simp add: run_script_io_def generate_file_references_io_eq process_exit_status_def)

theorem exit_status_on_completion_witness:
  "process_exit_status utf8_stream (run_script_io [] Map.empty utf8_stream absent_fs) = 0 \<and>
   process_exit_status utf8_stream (run_script_io [] Map.empty utf8_stream one_file_fs) = 0 \<and>
   process_exit_status ascii_stream (run_script_io [] Map.empty ascii_stream absent_fs) = 1 \<and>
   process_exit_status full_device_stream
     (run_script_io [] Map.empty full_device_stream absent_fs) = 120"
proof -
  have all: "list_all (encodes utf8_stream) ls" "list_all (encodes full_device_stream) ls" for ls
    by (simp_all add: utf8_stream_def full_device_stream_def list_all_iff)
  have flush: "flushes utf8_stream" "flushes ascii_stream" "\<not> flushes full_device_stream"
    by (simp_all add: utf8_stream_def ascii_stream_def full_device_stream_def)
  have status: "process_exit_status out (run_script_io [] Map.empty out fs) =
      (if \<not> flushes out then 120
       else if list_all (encodes out) (stdout (generate_file_references fs)) then 0 else 1)"
    for out fs
    using exit_status_on_completion [of "[]" Map.empty out fs 0 "generate_file_references fs"]
    by (elim conjE)
  show ?thesis
    by (simp add: status all flush report_not_ascii)
qed

text \<open>
  C9. The mapping has 18 entries with pairwise distinct keys, each key a relative
  path (it does not start with \<open>/\<close>). Printing, the existence test, one iteration of
  the loop and the whole loop leave the dictionary held by the procedure as it was,
  and at the end of the procedure it is still the literal.
\<close>

theorem mapping_static:
  "length swift_files = 18 \<and>
   distinct (map fst swift_files) \<and>
   list_all (\<lambda>(path, name). \<not> prefix ''/'' path) swift_files \<and>
   swift_files_local (print s st) = swift_files_local st \<and>
   swift_files_local (snd (os_path_exists fs p st)) = swift_files_local st \<and>
   swift_files_local (loop_body fs path name st) = swift_files_local st \<and>
   swift_files_local (for_loop fs items st) = swift_files_local st \<and>
   swift_files_local (generate_file_references fs) = swift_files"
proof -
  have "list_all (\<lambda>(path, name). \<not> prefix ''/'' path) swift_files"
    by (simp add: swift_files_def)
  then show ?thesis
    by (simp add: length_swift_files distinct_keys print_fields os_path_exists_fields
        loop_body_fields for_loop_local report_local)
qed


text \<open>
  C4. The file-check lines follow the order of the mapping: the line of the entry at
  position \<open>i\<close> is the report's line at position \<open>i\<close> after the header. So for two
  entries, the earlier one first, the line of the earlier entry stands before the line
  of the later one; the two lines differ, and each occurs once in the report.
\<close>

theorem file_check_order:
  "i < j \<Longrightarrow> j < length swift_files \<Longrightarrow>
   stdout (generate_file_references fs) ! (length header_lines + i) =
     entry_line fs (swift_files ! i) \<and>
   stdout (generate_file_references fs) ! (length header_lines + j) =
     entry_line fs (swift_files ! j) \<and>
   entry_line fs (swift_files ! i) \<noteq> entry_line fs (swift_files ! j) \<and>
   count_list (stdout (generate_file_references fs)) (entry_line fs (swift_files ! i)) = 1 \<and>
   count_list (stdout (generate_file_references fs)) (entry_line fs (swift_files ! j)) = 1"
proof -
  assume order: "i < j" and bound: "j < length swift_files"
  let ?out = "stdout (generate_file_references fs)"
  have position: "?out ! (length header_lines + k) = entry_line fs (swift_files ! k)"
    if "k < length swift_files" for k
    using that by (simp add: report_stdout file_check_lines_map nth_append)
  have once: "count_list ?out (entry_line fs (swift_files ! k)) = 1"
    if k: "k < length swift_files" for k
  proof -
    obtain p n where pn: "swift_files ! k = (p, n)"
      by (cases "swift_files ! k")
    with k have "(p, n) \<in> set swift_files"
      by (metis nth_mem)
    then have "count_list (map (entry_line fs) swift_files) (entry_line fs (p, n)) = 1"
      by (rule count_entry_lines_present [OF distinct_keys])
    then show ?thesis
      using entry_line_not_fixed [of fs "(p, n)"] by (simp add: pn count_in_report)
  qed
  from order bound have inside: "i < length swift_files" by simp
  have "(map fst swift_files ! i = map fst swift_files ! j) = (i = j)"
    by (rule nth_eq_iff_index_eq [OF distinct_keys]) (simp_all add: inside bound)
  with order have "map fst swift_files ! i \<noteq> map fst swift_files ! j"
    by (simp only: simp_thms nat_neq_iff)
  then have keys: "fst (swift_files ! i) \<noteq> fst (swift_files ! j)"
    by (simp only: nth_map [OF inside] nth_map [OF bound] simp_thms)
  have differ: "entry_line fs (swift_files ! i) \<noteq> entry_line fs (swift_files ! j)"
  proof
    assume same: "entry_line fs (swift_files ! i) = entry_line fs (swift_files ! j)"
    show False
    proof (cases "path_exists fs (joined_location (fst (swift_files ! j)))")
      case True
      then have "entry_line fs (swift_files ! j) = success_line (fst (swift_files ! j))"
        by (simp add: entry_line_def)
      with same keys show False
        by (simp add: entry_line_eq_success)
    next
      case False
      then have "entry_line fs (swift_files ! j) = failure_line (fst (swift_files ! j))"
        by (simp add: entry_line_def)
      with same keys show False
        by (simp add: entry_line_eq_failure)
    qed
  qed
  from position [OF inside] position [OF bound] once [OF inside] once [OF bound] differ
  show ?thesis by (intro conjI)
qed

theorem file_check_order_witness:
  "stdout (generate_file_references one_file_fs) ! 2 = success_line ''Models/Phase.swift'' \<and>
   stdout (generate_file_references one_file_fs) ! 3 = failure_line ''Models/Schedule.swift''"
proof -
  have bound: "(1::nat) < length swift_files"
    by (simp add: length_swift_files)
  have entries: "swift_files ! 0 = (''Models/Phase.swift'', ''Phase.swift'')"
    "swift_files ! 1 = (''Models/Schedule.swift'', ''Schedule.swift'')"
    by (simp_all add: swift_files_def)
  have lines: "entry_line one_file_fs (''Models/Phase.swift'', ''Phase.swift'') =
      success_line ''Models/Phase.swift''"
    "entry_line one_file_fs (''Models/Schedule.swift'', ''Schedule.swift'') =
      failure_line ''Models/Schedule.swift''"
    by (simp_all add: entry_line_def path_exists_def one_file_fs_def joined_location_def
        base_directory_def project_subdirectory_def)
  have "length header_lines = 2"
    by (simp add: header_lines_def)
  then show ?thesis
    using file_check_order [of 0 1 one_file_fs] bound entries lines
    by (simp add: numeral_3_eq_3)
qed

text \<open>
  C6, as stated, at a filesystem where a FIFO sits at the location of the first
  entry: the success line of that entry is printed although the location holds
  neither a regular file nor a directory.
\<close>

theorem success_on_fifo:
  "\<not> (success_line ''Models/Phase.swift'' \<in> set (stdout (generate_file_references fifo_fs))
      \<longleftrightarrow> holds_file_or_directory fifo_fs (joined_location ''Models/Phase.swift''))"
proof -
  have line: "entry_line fifo_fs (''Models/Phase.swift'', ''Phase.swift'') =
      success_line ''Models/Phase.swift''"
    by (simp add: entry_line_def path_exists_def fifo_fs_def joined_location_def
        base_directory_def project_subdirectory_def)
  have "(''Models/Phase.swift'', ''Phase.swift'') \<in> set swift_files"
    by (simp add: swift_files_def)
  then have "entry_line fifo_fs (''Models/Phase.swift'', ''Phase.swift'')
      \<in> set (stdout (generate_file_references fifo_fs))"
    by (rule entry_line_in_report)
  then have "success_line ''Models/Phase.swift'' \<in> set (stdout (generate_file_references fifo_fs))"
    by (simp only: line)
  moreover have "\<not> holds_file_or_directory fifo_fs (joined_location ''Models/Phase.swift'')"
    by (simp add: holds_file_or_directory_def fifo_fs_def joined_location_def
        base_directory_def project_subdirectory_def)
  ultimately show ?thesis by simp
qed

text \<open>
  C6, amended. For every entry the success line is printed exactly when \<open>os.stat\<close>
  succeeds on the constructed location, whatever kind of object it finds there, and
  the failure line exactly when \<open>os.stat\<close> fails; so a regular file or a directory at
  the location gives the success line.
\<close>

theorem success_iff_stat_succeeds:
  "(path, name) \<in> set swift_files \<Longrightarrow>
   (success_line path \<in> set (stdout (generate_file_references fs)) \<longleftrightarrow>
      (\<exists>k. fs (joined_location path) = Inr k)) \<and>
   (failure_line path \<in> set (stdout (generate_file_references fs)) \<longleftrightarrow>
      (\<exists>e. fs (joined_location path) = Inl e)) \<and>
   (holds_file_or_directory fs (joined_location path) \<longrightarrow>
      success_line path \<in> set (stdout (generate_file_references fs)))"
proof -
  assume entry: "(path, name) \<in> set swift_files"
  let ?out = "stdout (generate_file_references fs)"
  have stat: "path_exists fs (joined_location path) \<longleftrightarrow> (\<exists>k. fs (joined_location path) = Inr k)"
    "\<not> path_exists fs (joined_location path) \<longleftrightarrow> (\<exists>e. fs (joined_location path) = Inl e)"
    by (simp_all add: path_exists_def split: sum.splits)
  have member: "l \<in> set ?out \<longleftrightarrow> l \<in> entry_line fs ` set swift_files"
    if "l \<in> {success_line path, failure_line path}" for l
    using that marked_lines_not_fixed [of path]
    by (auto simp add: report_stdout file_check_lines_map)
  have "success_line path \<in> entry_line fs ` set swift_files \<longleftrightarrow>
      path_exists fs (joined_location path)"
  proof
    assume "success_line path \<in> entry_line fs ` set swift_files"
    then obtain e where "entry_line fs e = success_line path" by auto
    then show "path_exists fs (joined_location path)"
      by (simp add: entry_line_eq_success)
  next
    assume "path_exists fs (joined_location path)"
    then have "entry_line fs (path, name) = success_line path"
      by (simp add: entry_line_def)
    with entry show "success_line path \<in> entry_line fs ` set swift_files"
      by (metis image_eqI)
  qed
  moreover have "failure_line path \<in> entry_line fs ` set swift_files \<longleftrightarrow>
      \<not> path_exists fs (joined_location path)"
  proof
    assume "failure_line path \<in> entry_line fs ` set swift_files"
    then obtain e where "entry_line fs e = failure_line path" by auto
    then show "\<not> path_exists fs (joined_location path)"
      by (simp add: entry_line_eq_failure)
  next
    assume "\<not> path_exists fs (joined_location path)"
    then have "entry_line fs (path, name) = failure_line path"
      by (simp add: entry_line_def)
    with entry show "failure_line path \<in> entry_line fs ` set swift_files"
      by (metis image_eqI)
  qed
  moreover have "holds_file_or_directory fs (joined_location path) \<longrightarrow>
      path_exists fs (joined_location path)"
    by (auto simp add: holds_file_or_directory_def path_exists_def)
  ultimately show ?thesis
    using member [of "success_line path"] member [of "failure_line path"] stat
    by simp
qed

theorem success_iff_stat_succeeds_witness:
  "success_line ''Models/Phase.swift'' \<in> set (stdout (generate_file_references fifo_fs)) \<and>
   failure_line ''Models/Phase.swift'' \<notin> set (stdout (generate_file_references fifo_fs))"
proof -
  have entry: "(''Models/Phase.swift'', ''Phase.swift'') \<in> set swift_files"
    by (simp add: swift_files_def)
  have "fifo_fs (joined_location ''Models/Phase.swift'') = Inr S_IFIFO"
    by (simp add: fifo_fs_def joined_location_def base_directory_def
        project_subdirectory_def)
  then show ?thesis
    using success_iff_stat_succeeds [OF entry, of fifo_fs] by simp
qed


text \<open>
  C8. When the base directory does not exist, so that \<open>os.stat\<close> fails with
  \<open>ENOENT\<close> on it and on every path below it, the script still runs to its end, and
  the report is the header, the failure line of every entry in the order of the
  mapping, and the instruction block.
\<close>

theorem missing_base_directory:
  "fs base_directory = Inl ENOENT \<Longrightarrow>
   (\<forall>p. prefix (base_directory @ ''/'') p \<longrightarrow> fs p = Inl ENOENT) \<Longrightarrow>
   run_script argv environ fs = Completed (generate_file_references fs) \<and>
   stdout (generate_file_references fs) =
     header_lines @ map (\<lambda>(path, name). failure_line path) swift_files @ instruction_lines"
proof -
  assume below: "\<forall>p. prefix (base_directory @ ''/'') p \<longrightarrow> fs p = Inl ENOENT"
  have "prefix (base_directory @ ''/'') (joined_location path)" for path
    by (simp add: joined_location_def)
  with below have "fs (joined_location path) = Inl ENOENT" for path
    by blast
  then have "entry_line fs e = (case e of (path, name) \<Rightarrow> failure_line path)" for e
    by (cases e) (simp add: entry_line_def path_exists_def)
  then have "map (entry_line fs) swift_files =
      map (\<lambda>(path, name). failure_line path) swift_files"
    by (intro map_cong refl)
  then show ?thesis
    by (simp add: run_script_def report_stdout file_check_lines_map)
qed

theorem missing_base_directory_witness:
  "run_script [] Map.empty absent_fs = Completed (generate_file_references absent_fs) \<and>
   stdout (generate_file_references absent_fs) =
     header_lines @ map (\<lambda>(path, name). failure_line path) swift_files @ instruction_lines"
  using missing_base_directory [of absent_fs "[]" Map.empty]
  by (simp add: absent_fs_def)

text \<open>
  C10. The file-check line of the entry at position \<open>i\<close> is a marker, a space and
  \<open>MoveIt/\<close> followed by the relative path of the entry, with the suffix
  \<open> - NOT FOUND\<close> after the cross mark. It is not the same line written with the bare
  relative path, and the base directory occurs nowhere in it.
\<close>

theorem line_names_project_path:
  "i < length swift_files \<Longrightarrow>
   (file_check_lines fs ! i = check_mark @ '' MoveIt/'' @ fst (swift_files ! i) \<or>
    file_check_lines fs ! i =
      cross_mark @ '' MoveIt/'' @ fst (swift_files ! i) @ '' - NOT FOUND'') \<and>
   file_check_lines fs ! i \<noteq> check_mark @ '' '' @ fst (swift_files ! i) \<and>
   file_check_lines fs ! i \<noteq> cross_mark @ '' '' @ fst (swift_files ! i) @ '' - NOT FOUND'' \<and>
   \<not> sublist base_directory (file_check_lines fs ! i)"
proof -
  assume i: "i < length swift_files"
  let ?p = "fst (swift_files ! i)"
  let ?l = "file_check_lines fs ! i"
  from i have line: "?l = entry_line fs (swift_files ! i)"
    by (simp add: file_check_lines_map)
  have form: "?l = check_mark @ '' MoveIt/'' @ ?p \<or>
      ?l = cross_mark @ '' MoveIt/'' @ ?p @ '' - NOT FOUND''"
    by (simp add: line entry_line_def success_line_def failure_line_def
        project_subdirectory_def)
  have longer: "length ?l \<noteq> length (check_mark @ '' '' @ ?p)"
    "length ?l \<noteq> length (cross_mark @ '' '' @ ?p @ '' - NOT FOUND'')"
    using form by (auto simp add: check_mark_def cross_mark_def)
  then have bare: "?l \<noteq> check_mark @ '' '' @ ?p"
    "?l \<noteq> cross_mark @ '' '' @ ?p @ '' - NOT FOUND''"
    by metis+
  from i have "swift_files ! i \<in> set swift_files"
    by (rule nth_mem)
  with no_underscore_in_keys have "CHR ''_'' \<notin> set ?p"
    by (simp add: list_all_iff)
  then have "CHR ''_'' \<notin> set ?l"
    unfolding line by (rule no_underscore_in_entry_line)
  moreover have "CHR ''_'' \<in> set base_directory"
    by (simp add: base_directory_def)
  ultimately have "\<not> sublist base_directory ?l"
    using set_mono_sublist by blast
  with form bare show ?thesis by (intro conjI)
qed

theorem line_names_project_path_witness:
  "file_check_lines absent_fs ! 17 =
     cross_mark @ '' MoveIt/Utilities/TimeFormatter.swift - NOT FOUND'' \<and>
   \<not> sublist base_directory (file_check_lines absent_fs ! 17)"
proof -
  have bound: "(17::nat) < length swift_files"
    by (simp add: length_swift_files)
  have last_entry: "swift_files ! 17 = (''Utilities/TimeFormatter.swift'', ''TimeFormatter.swift'')"
    by (simp add: swift_files_def)
  have "file_check_lines absent_fs ! 17 \<noteq> check_mark @ '' MoveIt/Utilities/TimeFormatter.swift''"
    using bound
    by (simp add: file_check_lines_map last_entry entry_line_def path_exists_def absent_fs_def
        failure_line_def cross_mark_def check_mark_def)
  then show ?thesis
    using line_names_project_path [OF bound, of absent_fs] by (auto simp add: last_entry)
qed

end
